theory Spec2Isabelle
  imports Main "HOL-Library.Finite_Map"
begin

section \<open>The event emitter of events.go\<close>

text \<open>
  The package keeps, per emitter, a cap \<open>maxListeners\<close> and a \<open>sync.Map\<close> from event
  names to slices of listeners. Every method is modelled as a function from the emitter
  before the call to the emitter after it (with the method's result, where it has one).
  The model is sequential: the mutex \<open>mu\<close> only serialises the mutating methods and has
  no counterpart here. \<open>EnableWarning\<close> is the constant \<open>false\<close>, so both
  \<open>log.Printf\<close> calls are dead code; logging is not part of the state.
\<close>

subsection \<open>Data model\<close>

type_synonym EventName = string

text \<open>
  What a call of a Go function value does to the world outside the emitter: it returns,
  or it panics. Either way the world may have changed.
\<close>

datatype 'w outcome = is_Returned: Returned 'w | Panicked 'w

text \<open>
  A \<open>Listener\<close> is a Go function value \<open>func(...interface{})\<close>. The emitter does two
  things with it: it calls it (\<open>call\<close>: the payload and the world before give the
  outcome), and in \<open>RemoveListener\<close> it reads \<open>reflect.ValueOf(l).Pointer()\<close>
  (\<open>Pointer\<close>). For a function value reflect returns the address of the function's
  code, so the closures made from one function literal, and the method values of one
  method, have the same \<open>Pointer\<close> although they are different values with different
  captured variables; hence \<open>Pointer\<close> and \<open>call\<close> are independent fields. The payload
  values are of type \<open>interface{}\<close>; the model leaves their type \<open>'a\<close> open.
  Listeners act on the world \<open>'w\<close> only: a listener that calls back into the emitter it
  is registered on is outside this model.
\<close>

datatype ('a, 'w) Listener =
  Func (Pointer: nat) (call: "'a list \<Rightarrow> 'w \<Rightarrow> 'w outcome")

type_synonym ('a, 'w) Events = "(EventName, ('a, 'w) Listener list) fmap"

record ('a, 'w) emitter =
  maxListeners :: int
  evtListeners :: "('a, 'w) Events"

definition DefaultMaxListeners :: int where
  "DefaultMaxListeners = 0"

definition EnableWarning :: bool where
  "EnableWarning = False"

subsection \<open>The operations of sync.Map that the emitter uses\<close>

definition Load :: "('k, 'v) fmap \<Rightarrow> 'k \<Rightarrow> 'v option" where
  "Load m k = fmlookup m k"

definition Store :: "('k, 'v) fmap \<Rightarrow> 'k \<Rightarrow> 'v \<Rightarrow> ('k, 'v) fmap" where
  "Store m k v = fmupd k v m"

text \<open>\<open>LoadOrStore\<close> gives the value now held for the key and the map after the call.\<close>

definition LoadOrStore :: "('k, 'v) fmap \<Rightarrow> 'k \<Rightarrow> 'v \<Rightarrow> 'v \<times> ('k, 'v) fmap" where
  "LoadOrStore m k v =
     (case fmlookup m k of
        Some actual \<Rightarrow> (actual, m)
      | None \<Rightarrow> (v, fmupd k v m))"

definition Delete :: "('k, 'v) fmap \<Rightarrow> 'k \<Rightarrow> ('k, 'v) fmap" where
  "Delete m k = fmdrop k m"

text \<open>
  \<open>Range\<close> visits every entry once, in no specified order. Both callers ignore the
  values and never stop early, so the model keeps the finite set of keys visited.
\<close>

definition Range_keys :: "('k, 'v) fmap \<Rightarrow> 'k fset" where
  "Range_keys m = fmdom m"

subsection \<open>The methods of the emitter\<close>

definition New :: "('a, 'w) emitter" where
  "New = \<lparr>maxListeners = DefaultMaxListeners, evtListeners = fmempty\<rparr>"

text \<open>
  \<open>AddListener\<close>: the early return leaves the map as \<open>LoadOrStore\<close> left it; otherwise
  the passed listeners are appended to the slice and the result is stored.
\<close>

definition AddListener ::
  "('a, 'w) emitter \<Rightarrow> EventName \<Rightarrow> ('a, 'w) Listener list \<Rightarrow> ('a, 'w) emitter" where
  "AddListener e evt listeners =
     (case LoadOrStore (evtListeners e) evt [] of
        (currentListeners, m) \<Rightarrow>
          if maxListeners e > 0 \<and> int (length currentListeners) \<ge> maxListeners e
          then e\<lparr>evtListeners := m\<rparr>
          else e\<lparr>evtListeners := Store m evt (currentListeners @ listeners)\<rparr>)"

text \<open>
  The loop of \<open>Emit\<close>. It calls the listeners of the slice from left to right with the
  same payload; a panic of a listener is not recovered, so it ends the loop. The result
  is the list of calls made, each with the payload passed, and how the loop ended.
\<close>

fun range_call ::
  "('a, 'w) Listener list \<Rightarrow> 'a list \<Rightarrow> 'w
    \<Rightarrow> (('a, 'w) Listener \<times> 'a list) list \<times> 'w outcome" where
  "range_call [] data w = ([], Returned w)"
| "range_call (listener # rest) data w =
     (case call listener data w of
        Panicked w' \<Rightarrow> ([(listener, data)], Panicked w')
      | Returned w' \<Rightarrow>
          (case range_call rest data w' of
             (calls, r) \<Rightarrow> ((listener, data) # calls, r)))"

text \<open>\<open>Emit\<close> gives the emitter after the call, the calls made and the outcome.\<close>

definition Emit ::
  "('a, 'w) emitter \<Rightarrow> EventName \<Rightarrow> 'a list \<Rightarrow> 'w
    \<Rightarrow> ('a, 'w) emitter \<times> (('a, 'w) Listener \<times> 'a list) list \<times> 'w outcome" where
  "Emit e evt data w =
     (case Load (evtListeners e) evt of
        Some listeners \<Rightarrow> (e, range_call listeners data w)
      | None \<Rightarrow> (e, [], Returned w))"

text \<open>
  \<open>EventNames\<close> returns a slice holding every key once, in the order \<open>Range\<close> happened
  to visit them; the model gives its content.
\<close>

definition EventNames :: "('a, 'w) emitter \<Rightarrow> EventName fset" where
  "EventNames e = Range_keys (evtListeners e)"

definition GetMaxListeners :: "('a, 'w) emitter \<Rightarrow> int" where
  "GetMaxListeners e = maxListeners e"

definition ListenerCount :: "('a, 'w) emitter \<Rightarrow> EventName \<Rightarrow> int" where
  "ListenerCount e evt =
     (case Load (evtListeners e) evt of
        Some listeners \<Rightarrow> int (length listeners)
      | None \<Rightarrow> 0)"

text \<open>The nil slice returned for an absent name is the empty list.\<close>

definition Listeners :: "('a, 'w) emitter \<Rightarrow> EventName \<Rightarrow> ('a, 'w) Listener list" where
  "Listeners e evt =
     (case Load (evtListeners e) evt of
        Some listeners \<Rightarrow> listeners
      | None \<Rightarrow> [])"

definition On ::
  "('a, 'w) emitter \<Rightarrow> EventName \<Rightarrow> ('a, 'w) Listener list \<Rightarrow> ('a, 'w) emitter" where
  "On e evt listeners = AddListener e evt listeners"

definition Once ::
  "('a, 'w) emitter \<Rightarrow> EventName \<Rightarrow> ('a, 'w) Listener list \<Rightarrow> ('a, 'w) emitter" where
  "Once e evt listeners = AddListener e evt listeners"

definition RemoveAllListeners ::
  "('a, 'w) emitter \<Rightarrow> EventName \<Rightarrow> ('a, 'w) emitter \<times> bool" where
  "RemoveAllListeners e evt =
     (let m = Delete (evtListeners e) evt;
          found = (Load m evt \<noteq> None)
      in (e\<lparr>evtListeners := m\<rparr>, \<not> found))"

text \<open>
  The loop of \<open>RemoveListener\<close>: the index of the first listener, from index \<open>i\<close> on,
  whose \<open>reflect\<close> pointer equals that of the listener given.
\<close>

fun range_match ::
  "nat \<Rightarrow> ('a, 'w) Listener list \<Rightarrow> ('a, 'w) Listener \<Rightarrow> nat option" where
  "range_match i [] listener = None"
| "range_match i (l # rest) listener =
     (if Pointer l = Pointer listener then Some i
      else range_match (Suc i) rest listener)"

text \<open>
  \<open>append(listeners[:i], listeners[i+1:]...)\<close> shifts the tail one place to the left
  inside the slice's own array and gives the slice of the first \<open>len - 1\<close> places; the
  value stored is \<open>take i listeners @ drop (i + 1) listeners\<close>. The shift is visible in
  slices that \<open>Listeners\<close> handed out before; the registry itself holds the new slice
  only.
\<close>

definition RemoveListener ::
  "('a, 'w) emitter \<Rightarrow> EventName \<Rightarrow> ('a, 'w) Listener \<Rightarrow> ('a, 'w) emitter \<times> bool" where
  "RemoveListener e evt listener =
     (case Load (evtListeners e) evt of
        Some listeners \<Rightarrow>
          (case range_match 0 listeners listener of
             Some i \<Rightarrow>
               (e\<lparr>evtListeners :=
                    Store (evtListeners e) evt (take i listeners @ drop (i + 1) listeners)\<rparr>,
                True)
           | None \<Rightarrow> (e, False))
      | None \<Rightarrow> (e, False))"

definition Clear :: "('a, 'w) emitter \<Rightarrow> ('a, 'w) emitter" where
  "Clear e = e\<lparr>evtListeners := fmempty\<rparr>"

definition SetMaxListeners :: "('a, 'w) emitter \<Rightarrow> int \<Rightarrow> ('a, 'w) emitter" where
  "SetMaxListeners e n = (if n < 0 then e else e\<lparr>maxListeners := n\<rparr>)"

definition Len :: "('a, 'w) emitter \<Rightarrow> int" where
  "Len e = int (fcard (Range_keys (evtListeners e)))"

subsection \<open>Sequences of calls, and listeners to run the model on\<close>

text \<open>A sequence of \<open>AddListener\<close> calls, each with its event name and its listeners.\<close>

fun AddListener_calls ::
  "('a, 'w) emitter \<Rightarrow> (EventName \<times> ('a, 'w) Listener list) list \<Rightarrow> ('a, 'w) emitter" where
  "AddListener_calls e [] = e"
| "AddListener_calls e ((evt, listeners) # calls) =
     AddListener_calls (AddListener e evt listeners) calls"

text \<open>
  Listeners for running the model, with strings as payload values and, as the world, a
  shared sequence of records. \<open>recorder p mark\<close> is a closure whose code is at address
  \<open>p\<close> and which has captured \<open>mark\<close>: it appends its mark and the payload it got to
  the sequence. \<open>faulty p\<close> panics at once.
\<close>

type_synonym records = "(nat \<times> string list) list"

definition recorder :: "nat \<Rightarrow> nat \<Rightarrow> (string, records) Listener" where
  "recorder p mark = Func p (\<lambda>data w. Returned (w @ [(mark, data)]))"

definition faulty :: "nat \<Rightarrow> (string, records) Listener" where
  "faulty p = Func p (\<lambda>data w. Panicked w)"

section \<open>Facts about the operations\<close>

lemmas run_defs =
  New_def DefaultMaxListeners_def On_def Once_def AddListener_def LoadOrStore_def Store_def
  Load_def Delete_def Listeners_def ListenerCount_def Emit_def SetMaxListeners_def
  RemoveListener_def RemoveAllListeners_def Clear_def Len_def EventNames_def Range_keys_def
  GetMaxListeners_def recorder_def faulty_def

lemma ListenerCount_length: "ListenerCount e evt = int (length (Listeners e evt))"
  by (simp add: ListenerCount_def Listeners_def split: option.split)

text \<open>
  \<open>AddListener\<close> in one equation. A name that is at capacity has an entry already, so
  the entry that \<open>LoadOrStore\<close> may create never survives an early return.
\<close>

lemma AddListener_unfold:
  "AddListener e evt listeners =
     (if 0 < maxListeners e \<and> maxListeners e \<le> ListenerCount e evt then e
      else e\<lparr>evtListeners := fmupd evt (Listeners e evt @ listeners) (evtListeners e)\<rparr>)"
  by (cases "fmlookup (evtListeners e) evt")
     (auto simp: AddListener_def LoadOrStore_def Store_def ListenerCount_def Listeners_def
        Load_def)

lemma maxListeners_AddListener [simp]:
  "maxListeners (AddListener e evt listeners) = maxListeners e"
  by (simp add: AddListener_unfold)

lemma Listeners_AddListener:
  "Listeners (AddListener e evt listeners) evt' =
     (if evt' = evt \<and> \<not> (0 < maxListeners e \<and> maxListeners e \<le> ListenerCount e evt)
      then Listeners e evt @ listeners else Listeners e evt')"
proof (cases "0 < maxListeners e \<and> maxListeners e \<le> ListenerCount e evt")
  case True
  then show ?thesis by (simp add: AddListener_unfold)
next
  case False
  then have "AddListener e evt listeners =
      e\<lparr>evtListeners := fmupd evt (Listeners e evt @ listeners) (evtListeners e)\<rparr>"
    by (simp only: AddListener_unfold if_False)
  with False show ?thesis by (simp add: Listeners_def Load_def)
qed

lemma maxListeners_New_eq [simp]: "maxListeners New = 0"
  by (simp add: New_def DefaultMaxListeners_def)

lemma maxListeners_New: "maxListeners New \<le> 0"
  by simp

lemma Listeners_New [simp]: "Listeners New evt = []"
  by (simp add: New_def Listeners_def Load_def)

lemma ListenerCount_SetMaxListeners [simp]:
  "ListenerCount (SetMaxListeners e n) evt = ListenerCount e evt"
  by (simp add: SetMaxListeners_def ListenerCount_def)

lemma Listeners_SetMaxListeners [simp]:
  "Listeners (SetMaxListeners e n) evt = Listeners e evt"
  by (simp add: SetMaxListeners_def Listeners_def)


lemma Listeners_fmupd [simp]:
  "Listeners (e\<lparr>evtListeners := fmupd evt ls (evtListeners e)\<rparr>) evt' =
     (if evt' = evt then ls else Listeners e evt')"
  by (simp add: Listeners_def Load_def)

subsection \<open>The loop of Emit\<close>




subsection \<open>Sequences of AddListener calls without a cap\<close>

lemma Listeners_AddListener_calls_unlimited:
  "maxListeners e \<le> 0 \<Longrightarrow>
     Listeners (AddListener_calls e regs) evt =
       Listeners e evt @ concat (map snd (filter (\<lambda>r. fst r = evt) regs))"
proof (induction regs arbitrary: e)
  case Nil
  then show ?case by simp
next
  case (Cons r regs)
  obtain n ls where r: "r = (n, ls)" by (cases r)
  from Cons.prems have m: "maxListeners (AddListener e n ls) \<le> 0" by simp
  show ?case
    using Cons.IH [OF m] Cons.prems by (simp add: r Listeners_AddListener)
qed

subsection \<open>The loop of RemoveListener\<close>






section \<open>The claims\<close>

subsection \<open>Emit\<close>




subsection \<open>The cap on listeners\<close>




text \<open>
  C3. With a positive cap and a count for the name that has reached it,
  \<open>AddListener\<close> leaves the emitter as it was: no listener is added, no entry and not
  the cap is changed. The method has no result, so it has no error to return.
\<close>

theorem AddListener_at_capacity:
  "0 < maxListeners e \<Longrightarrow> maxListeners e \<le> ListenerCount e evt \<Longrightarrow>
     AddListener e evt listeners = e"
  by (simp add: AddListener_unfold)

theorem AddListener_at_capacity_witness:
  "AddListener (On (SetMaxListeners New 1) ''a'' [recorder 1 1]) ''a'' [recorder 2 2]
     = On (SetMaxListeners New 1) ''a'' [recorder 1 1]"
proof -
  let ?e = "On (SetMaxListeners New 1) ''a'' [recorder 1 1]"
  have 1: "0 < maxListeners ?e" by (simp add: run_defs)
  have 2: "maxListeners ?e \<le> ListenerCount ?e ''a''" by (simp add: run_defs)
  show ?thesis by (rule AddListener_at_capacity [OF 1 2])
qed

subsection \<open>Removing listeners\<close>




text \<open>
  C6. \<open>RemoveAllListeners\<close> gives \<open>true\<close>, whether the name had an entry or not.
  Afterwards the name has no entry, \<open>EventNames\<close> is without it, its count is 0, and
  every other name's entry and the cap are as before.
\<close>

theorem RemoveAllListeners_deletes_entry:
  "snd (RemoveAllListeners e evt)
   \<and> Load (evtListeners (fst (RemoveAllListeners e evt))) evt = None
   \<and> EventNames (fst (RemoveAllListeners e evt)) = EventNames e |-| {|evt|}
   \<and> evt |\<notin>| EventNames (fst (RemoveAllListeners e evt))
   \<and> ListenerCount (fst (RemoveAllListeners e evt)) evt = 0
   \<and> (\<forall>other. other \<noteq> evt \<longrightarrow>
         Load (evtListeners (fst (RemoveAllListeners e evt))) other
           = Load (evtListeners e) other
         \<and> Listeners (fst (RemoveAllListeners e evt)) other = Listeners e other)
   \<and> maxListeners (fst (RemoveAllListeners e evt)) = maxListeners e"
  by (simp add: RemoveAllListeners_def Delete_def Load_def EventNames_def Range_keys_def
      ListenerCount_def Listeners_def)

theorem RemoveAllListeners_deletes_entry_witness:
  "snd (RemoveAllListeners (On (On New ''x'' [recorder 1 1]) ''y'' [recorder 2 2]) ''x'')
   \<and> ''x'' |\<notin>| EventNames (fst (RemoveAllListeners
        (On (On New ''x'' [recorder 1 1]) ''y'' [recorder 2 2]) ''x''))
   \<and> ListenerCount (fst (RemoveAllListeners
        (On (On New ''x'' [recorder 1 1]) ''y'' [recorder 2 2]) ''x'')) ''x'' = 0
   \<and> Listeners (fst (RemoveAllListeners
        (On (On New ''x'' [recorder 1 1]) ''y'' [recorder 2 2]) ''x'')) ''y''
       = [recorder 2 2]"
proof -
  let ?e = "On (On New ''x'' [recorder 1 1]) ''y'' [recorder 2 2]"
  have y: "Listeners ?e ''y'' = [recorder 2 2]" by (simp add: run_defs)
  have ne: "''y'' \<noteq> ''x''" by simp
  from RemoveAllListeners_deletes_entry [of ?e "''x''"] ne
  have "snd (RemoveAllListeners ?e ''x'')"
    "''x'' |\<notin>| EventNames (fst (RemoveAllListeners ?e ''x''))"
    "ListenerCount (fst (RemoveAllListeners ?e ''x'')) ''x'' = 0"
    "Listeners (fst (RemoveAllListeners ?e ''x'')) ''y'' = Listeners ?e ''y''"
    by simp_all
  then show ?thesis unfolding y by simp
qed

text \<open>
  C9. After \<open>Clear\<close> the registry is empty: \<open>Len\<close> is 0, \<open>EventNames\<close> is empty and
  the count of every name is 0.
\<close>

theorem Clear_empties_registry:
  "evtListeners (Clear e) = fmempty
   \<and> Len (Clear e) = 0
   \<and> EventNames (Clear e) = {||}
   \<and> ListenerCount (Clear e) evt = 0"
  by (simp add: Clear_def Len_def EventNames_def Range_keys_def ListenerCount_def Load_def)

subsection \<open>Setting the cap\<close>

text \<open>
  C5. \<open>SetMaxListeners\<close> with a negative number leaves the emitter as it was: the cap
  that \<open>GetMaxListeners\<close> reads and the registry are unchanged. The method has no
  result, so no error comes out of it.
\<close>

theorem SetMaxListeners_negative:
  "n < 0 \<Longrightarrow>
     SetMaxListeners e n = e
     \<and> GetMaxListeners (SetMaxListeners e n) = GetMaxListeners e
     \<and> evtListeners (SetMaxListeners e n) = evtListeners e"
  by (simp add: SetMaxListeners_def)

theorem SetMaxListeners_negative_witness:
  "SetMaxListeners (SetMaxListeners (New :: (string, records) emitter) 5) (- 1)
     = SetMaxListeners New 5
   \<and> GetMaxListeners (SetMaxListeners (SetMaxListeners (New :: (string, records) emitter) 5)
       (- 1)) = 5"
proof -
  have g: "GetMaxListeners (SetMaxListeners (New :: (string, records) emitter) 5) = 5"
    by (simp add: run_defs)
  have "(- 1 :: int) < 0" by simp
  from SetMaxListeners_negative
    [OF this, of "SetMaxListeners (New :: (string, records) emitter) 5"]
  have a: "SetMaxListeners (SetMaxListeners (New :: (string, records) emitter) 5) (- 1)
      = SetMaxListeners New 5"
    and b: "GetMaxListeners (SetMaxListeners (SetMaxListeners (New :: (string, records) emitter) 5)
      (- 1)) = GetMaxListeners (SetMaxListeners (New :: (string, records) emitter) 5)"
    by simp_all
  from b g have "GetMaxListeners (SetMaxListeners (SetMaxListeners
      (New :: (string, records) emitter) 5) (- 1)) = 5"
    by (rule trans)
  with a show ?thesis by (rule conjI)
qed

subsection \<open>Registration\<close>

text \<open>
  C7. A fresh emitter has the cap 0. After any sequence of \<open>AddListener\<close> calls on it,
  the count of a name is the number of listeners that the calls for this name passed:
  none is dropped.
\<close>

theorem ListenerCount_without_cap:
  "GetMaxListeners New = 0
   \<and> ListenerCount (AddListener_calls New regs) evt =
       int (sum_list (map (\<lambda>r. length (snd r)) (filter (\<lambda>r. fst r = evt) regs)))"
proof -
  have "length (concat (map snd (filter (\<lambda>r. fst r = evt) regs))) =
      sum_list (map (\<lambda>r. length (snd r)) (filter (\<lambda>r. fst r = evt) regs))"
    by (simp add: length_concat comp_def)
  with Listeners_AddListener_calls_unlimited [OF maxListeners_New, of regs evt]
  have "ListenerCount (AddListener_calls New regs) evt =
      int (sum_list (map (\<lambda>r. length (snd r)) (filter (\<lambda>r. fst r = evt) regs)))"
    by (simp add: ListenerCount_length)
  then show ?thesis
    by (simp add: GetMaxListeners_def)
qed

text \<open>
  C8. \<open>Once\<close> gives the same emitter as \<open>AddListener\<close>, from every emitter and for
  all listeners passed. An \<open>Emit\<close> afterwards leaves the emitter as it is, so the
  listeners registered by \<open>Once\<close> are still registered after they were called: on a
  fresh emitter the slice of the name is still the list passed to \<open>Once\<close>.
\<close>

theorem Once_is_AddListener:
  "Once e evt listeners = AddListener e evt listeners
   \<and> fst (Emit (Once e evt listeners) evt data w) = Once e evt listeners
   \<and> Listeners (fst (Emit (Once New evt listeners) evt data w)) evt = listeners"
proof -
  have "Listeners (Once New evt listeners) evt = listeners"
    by (simp add: Once_def Listeners_AddListener)
  moreover have "fst (Emit e' evt data w) = e'" for e' :: "('a, 'b) emitter"
    by (simp add: Emit_def split: option.split)
  ultimately show ?thesis
    by (simp add: Once_def)
qed

text \<open>
  C10. \<open>AddListener\<close> with no listeners, for a name that has no entry, creates an
  entry holding the empty slice: the count of the name is 0, \<open>EventNames\<close> has the
  name, and \<open>Len\<close> is one more than before. (A name with no entry has the count 0 and
  so is never at capacity.)
\<close>

theorem AddListener_no_listeners_creates_entry:
  "Load (evtListeners e) evt = None \<Longrightarrow>
     Load (evtListeners (AddListener e evt [])) evt = Some []
     \<and> ListenerCount (AddListener e evt []) evt = 0
     \<and> evt |\<in>| EventNames (AddListener e evt [])
     \<and> evt |\<notin>| EventNames e
     \<and> Len (AddListener e evt []) = Len e + 1"
proof -
  assume n: "Load (evtListeners e) evt = None"
  then have c: "ListenerCount e evt = 0" and l: "Listeners e evt = []"
    by (simp_all add: ListenerCount_def Listeners_def)
  from c have "\<not> (0 < maxListeners e \<and> maxListeners e \<le> ListenerCount e evt)"
    by simp
  then have a: "AddListener e evt [] = e\<lparr>evtListeners := fmupd evt [] (evtListeners e)\<rparr>"
    by (simp only: AddListener_unfold if_False l append_Nil)
  from n have notin: "evt |\<notin>| fmdom (evtListeners e)"
    by (simp add: Load_def fmdom_notI)
  then have "fcard (finsert evt (fmdom (evtListeners e))) = Suc (fcard (fmdom (evtListeners e)))"
    by (simp add: fcard_finsert_disjoint)
  with notin show ?thesis
    by (simp add: a Load_def ListenerCount_def EventNames_def Range_keys_def Len_def)
qed

theorem AddListener_no_listeners_creates_entry_witness:
  "ListenerCount (AddListener (On New ''a'' [recorder 1 1]) ''b'' []) ''b'' = 0
   \<and> ''b'' |\<in>| EventNames (AddListener (On New ''a'' [recorder 1 1]) ''b'' [])
   \<and> Len (AddListener (On New ''a'' [recorder 1 1]) ''b'' []) = 2"
proof -
  let ?e = "On New ''a'' [recorder 1 1]"
  have n: "Load (evtListeners ?e) ''b'' = None" by (simp add: run_defs)
  have l: "Len ?e = 1" by (simp add: run_defs fcard_finsert_if)
  from AddListener_no_listeners_creates_entry [OF n] show ?thesis unfolding l by simp
qed

end
